theory Spec2Isabelle
  imports Complex_Main "HOL-Library.AList"
begin

section \<open>Values, series and data frames\<close>

text \<open>
  The program is \<^verbatim>\<open>sj2psi/__init__.py\<close>: a reader for STAR's \<^verbatim>\<open>SJ.out.tab\<close> files and
  \<^verbatim>\<open>get_psis\<close>, which adds percent-spliced-in scores to a pandas data frame of splice
  junctions. The functions of the module are embedded below, statement by statement, over
  a small model of the pandas operations they call.

  Conventions of the model.
  \<^item> A cell is a \<open>val\<close>: a Python int, a float, a string, a bool or \<^verbatim>\<open>None\<close>.
  \<^item> A float64 is an exact rational or one of \<^verbatim>\<open>nan\<close>, \<^verbatim>\<open>inf\<close>, \<^verbatim>\<open>-inf\<close>. Rounding, signed
    zeros and the wrap-around of int64 are not modelled: the arithmetic is exact, as it is
    for read counts below \<open>2^53\<close>. \<^verbatim>\<open>nan\<close> is the missing value of pandas.
  \<^item> A data frame has row labels (\<open>index\<close>, one tuple of values per row; the default
    \<^verbatim>\<open>RangeIndex\<close> is the labels \<open>0, 1, ...\<close>), the names of the index levels, and its
    columns as an association list from names to cell lists, in column order. A pandas
    frame is rectangular, every column has one cell per row; the record does not enforce
    it, the predicate \<open>rectangular\<close> below states it, and the operations are only meant
    for rectangular frames.
  \<^item> An exception is a value of \<open>error\<close>; a function that can raise returns
    \<open>error + 'a\<close>.
  \<^item> The pandas operations follow the documented behaviour of pandas, as the versions
    from 2.2 on implement it: a sum that skips missing values is 0 on an all-missing
    group (it was \<^verbatim>\<open>nan\<close> before version 0.22), and a left join keeps the rows of the
    calling frame in their order (which earlier versions did not always do when the
    labels of the calling frame repeat).
  \<^item> The dictionary \<^verbatim>\<open>groupbys\<close> is iterated in insertion order, as Python 3.7 and later
    do.
\<close>

datatype float64 = Fin rat | NaN | PInf | NInf

datatype val = IntV int | FloatV float64 | StrV string | BoolV bool | NoneV

datatype error = AttributeError string | KeyError string | TypeError | ValueError string

record series =
  s_index :: "val list list"
  s_values :: "val list"

record frame =
  index_names :: "string list"
  index :: "val list list"
  columns :: "(string \<times> val list) list"

text \<open>The labels of a \<^verbatim>\<open>RangeIndex\<close> of \<open>n\<close> rows.\<close>

definition range_index :: "nat \<Rightarrow> val list list" where
  "range_index n = map (\<lambda>i. [IntV (int i)]) [0..<n]"

text \<open>Running a function that can raise over a list stops at the first exception.\<close>

fun mapE :: "('a \<Rightarrow> error + 'b) \<Rightarrow> 'a list \<Rightarrow> error + 'b list" where
  "mapE f [] = Inr []"
| "mapE f (x # xs) =
     (case f x of
        Inl e \<Rightarrow> Inl e
      | Inr y \<Rightarrow> (case mapE f xs of Inl e \<Rightarrow> Inl e | Inr ys \<Rightarrow> Inr (y # ys)))"

subsection \<open>Arithmetic on cells\<close>

fun fadd :: "float64 \<Rightarrow> float64 \<Rightarrow> float64" where
  "fadd (Fin a) (Fin b) = Fin (a + b)"
| "fadd NaN _ = NaN"
| "fadd _ NaN = NaN"
| "fadd PInf NInf = NaN"
| "fadd NInf PInf = NaN"
| "fadd PInf _ = PInf"
| "fadd _ PInf = PInf"
| "fadd NInf _ = NInf"
| "fadd _ NInf = NInf"

text \<open>
  Float division as numpy does it with the warnings off: a finite nonzero number over
  zero is an infinity, \<open>0 / 0\<close> is \<^verbatim>\<open>nan\<close>, nothing raises.
\<close>

fun fdiv :: "float64 \<Rightarrow> float64 \<Rightarrow> float64" where
  "fdiv (Fin a) (Fin b) =
     (if b \<noteq> 0 then Fin (a / b) else if 0 < a then PInf else if a < 0 then NInf else NaN)"
| "fdiv NaN _ = NaN"
| "fdiv _ NaN = NaN"
| "fdiv (Fin a) PInf = Fin 0"
| "fdiv (Fin a) NInf = Fin 0"
| "fdiv PInf (Fin b) = (if 0 \<le> b then PInf else NInf)"
| "fdiv NInf (Fin b) = (if 0 \<le> b then NInf else PInf)"
| "fdiv PInf PInf = NaN"
| "fdiv PInf NInf = NaN"
| "fdiv NInf PInf = NaN"
| "fdiv NInf NInf = NaN"

text \<open>Python's bool is an int; strings and \<^verbatim>\<open>None\<close> are not numbers.\<close>

fun as_float :: "val \<Rightarrow> float64 option" where
  "as_float (IntV a) = Some (Fin (of_int a))"
| "as_float (FloatV x) = Some x"
| "as_float (BoolV b) = Some (Fin (if b then 1 else 0))"
| "as_float (StrV s) = None"
| "as_float NoneV = None"

text \<open>A cell read as a float, anything that is not a number as missing.\<close>

definition to_float :: "val \<Rightarrow> float64" where
  "to_float v = (case as_float v of None \<Rightarrow> NaN | Some x \<Rightarrow> x)"

text \<open>\<^verbatim>\<open>x >= k\<close> for a cell and an int. A missing value compares false, a string raises.\<close>

fun py_ge :: "val \<Rightarrow> int \<Rightarrow> error + bool" where
  "py_ge (IntV a) k = Inr (k \<le> a)"
| "py_ge (FloatV (Fin q)) k = Inr (of_int k \<le> q)"
| "py_ge (FloatV NaN) k = Inr False"
| "py_ge (FloatV PInf) k = Inr True"
| "py_ge (FloatV NInf) k = Inr False"
| "py_ge (BoolV b) k = Inr (k \<le> (if b then 1 else 0))"
| "py_ge (StrV s) k = Inl TypeError"
| "py_ge NoneV k = Inr False"

text \<open>\<^verbatim>\<open>x == k\<close> for a cell and an int.\<close>

fun py_eq_int :: "val \<Rightarrow> int \<Rightarrow> bool" where
  "py_eq_int (IntV a) k = (a = k)"
| "py_eq_int (FloatV (Fin q)) k = (q = of_int k)"
| "py_eq_int (FloatV _) k = False"
| "py_eq_int (BoolV b) k = ((if b then 1 else 0) = k)"
| "py_eq_int (StrV s) k = False"
| "py_eq_int NoneV k = False"

text \<open>
  \<^verbatim>\<open>x + y\<close>, cell by cell: ints add to an int, a float operand makes the sum a float, two
  strings concatenate, anything else raises.
\<close>

fun val_add :: "val \<Rightarrow> val \<Rightarrow> error + val" where
  "val_add (IntV a) (IntV b) = Inr (IntV (a + b))"
| "val_add (StrV a) (StrV b) = Inr (StrV (a @ b))"
| "val_add x y =
     (case (as_float x, as_float y) of
        (Some a, Some b) \<Rightarrow> Inr (FloatV (fadd a b))
      | _ \<Rightarrow> Inl TypeError)"

text \<open>\<^verbatim>\<open>x / y\<close>, cell by cell: true division of numbers gives a float.\<close>

definition val_truediv :: "val \<Rightarrow> val \<Rightarrow> error + val" where
  "val_truediv x y =
     (case (as_float x, as_float y) of
        (Some a, Some b) \<Rightarrow> Inr (FloatV (fdiv a b))
      | _ \<Rightarrow> Inl TypeError)"

text \<open>
  \<^verbatim>\<open>astype('float')\<close> on one cell. Parsing a string as a number is not modelled (no string
  reaches it in this program).
\<close>

fun astype_float :: "val \<Rightarrow> error + val" where
  "astype_float (StrV s) = Inl (ValueError ''could not convert string to float'')"
| "astype_float NoneV = Inr (FloatV NaN)"
| "astype_float v = Inr (FloatV (the (as_float v)))"

text \<open>\<^verbatim>\<open>astype(bool)\<close> on one cell: Python's truth value.\<close>

fun astype_bool :: "val \<Rightarrow> val" where
  "astype_bool (IntV a) = BoolV (a \<noteq> 0)"
| "astype_bool (FloatV x) = BoolV (x \<noteq> Fin 0)"
| "astype_bool (StrV s) = BoolV (s \<noteq> [])"
| "astype_bool (BoolV b) = BoolV b"
| "astype_bool NoneV = BoolV False"

text \<open>Missing cells, and the float a column of ints becomes once a cell is missing.\<close>

fun isna :: "val \<Rightarrow> bool" where
  "isna (FloatV NaN) = True"
| "isna NoneV = True"
| "isna _ = False"

fun upcast :: "val \<Rightarrow> val" where
  "upcast (IntV a) = FloatV (Fin (of_int a))"
| "upcast v = v"

subsection \<open>The pandas operations the module calls\<close>

text \<open>\<^verbatim>\<open>df.name\<close>: the column as a series, \<^verbatim>\<open>AttributeError\<close> when there is none.\<close>

definition getattr :: "frame \<Rightarrow> string \<Rightarrow> error + series" where
  "getattr df name =
     (case map_of (columns df) name of
        None \<Rightarrow> Inl (AttributeError name)
      | Some vs \<Rightarrow> Inr \<lparr>s_index = index df, s_values = vs\<rparr>)"

text \<open>\<^verbatim>\<open>df[name]\<close>: the same, with \<^verbatim>\<open>KeyError\<close>.\<close>

definition getitem :: "frame \<Rightarrow> string \<Rightarrow> error + series" where
  "getitem df name =
     (case map_of (columns df) name of
        None \<Rightarrow> Inl (KeyError name)
      | Some vs \<Rightarrow> Inr \<lparr>s_index = index df, s_values = vs\<rparr>)"

text \<open>\<^verbatim>\<open>s >= k\<close>: the boolean mask.\<close>

definition series_ge :: "series \<Rightarrow> int \<Rightarrow> error + bool list" where
  "series_ge s k = mapE (\<lambda>v. py_ge v k) (s_values s)"

text \<open>\<^verbatim>\<open>s[mask]\<close>: the rows where the mask is true, with their labels.\<close>

definition getitem_mask :: "series \<Rightarrow> bool list \<Rightarrow> series" where
  "getitem_mask s keep =
     \<lparr>s_index = map fst (filter snd (zip (s_index s) keep)),
      s_values = map fst (filter snd (zip (s_values s) keep))\<rparr>"

text \<open>
  Aligning a series with the labels of a frame before it is stored as a column: a series
  with the frame's own labels is taken as it is; otherwise each row gets the value of its
  label, and \<^verbatim>\<open>nan\<close> where the series has none (the column is then upcast to float). A
  series with duplicate labels cannot be aligned.
\<close>

definition reindex_for_setitem :: "frame \<Rightarrow> series \<Rightarrow> error + val list" where
  "reindex_for_setitem df s =
     (if s_index s = index df then Inr (s_values s)
      else if \<not> distinct (s_index s)
        then Inl (ValueError ''cannot reindex on an axis with duplicate labels'')
      else
        (let found = map (map_of (zip (s_index s) (s_values s))) (index df)
         in if None \<in> set found
            then Inr (map (\<lambda>f. case f of None \<Rightarrow> FloatV NaN | Some v \<Rightarrow> upcast v) found)
            else Inr (map the found)))"

text \<open>
  \<^verbatim>\<open>df[name] = s\<close> (and \<^verbatim>\<open>df.name = s\<close> for a column that exists): the column is replaced
  where it stands, or appended as the last column.
\<close>

definition setitem :: "frame \<Rightarrow> string \<Rightarrow> series \<Rightarrow> error + frame" where
  "setitem df name s =
     (case reindex_for_setitem df s of
        Inl e \<Rightarrow> Inl e
      | Inr vs \<Rightarrow> Inr (df\<lparr>columns := AList.update name vs (columns df)\<rparr>))"

text \<open>
  \<^verbatim>\<open>a.add(b)\<close>, \<^verbatim>\<open>a / b\<close> and \<^verbatim>\<open>a.astype('float')\<close>. Both operands are always columns of one
  frame here, so they carry the same labels and the operation is cell by cell. \<^verbatim>\<open>add\<close> is
  called without \<^verbatim>\<open>fill_value\<close>: a missing operand makes the sum missing.
\<close>

definition series_add :: "series \<Rightarrow> series \<Rightarrow> error + series" where
  "series_add a b =
     (case mapE (\<lambda>(x, y). val_add x y) (zip (s_values a) (s_values b)) of
        Inl e \<Rightarrow> Inl e
      | Inr vs \<Rightarrow> Inr \<lparr>s_index = s_index a, s_values = vs\<rparr>)"

definition series_truediv :: "series \<Rightarrow> series \<Rightarrow> error + series" where
  "series_truediv a b =
     (case mapE (\<lambda>(x, y). val_truediv x y) (zip (s_values a) (s_values b)) of
        Inl e \<Rightarrow> Inl e
      | Inr vs \<Rightarrow> Inr \<lparr>s_index = s_index a, s_values = vs\<rparr>)"

definition series_astype_float :: "series \<Rightarrow> error + series" where
  "series_astype_float a =
     (case mapE astype_float (s_values a) of
        Inl e \<Rightarrow> Inl e
      | Inr vs \<Rightarrow> Inr \<lparr>s_index = s_index a, s_values = vs\<rparr>)"

text \<open>\<^verbatim>\<open>s.map(f)\<close> and \<^verbatim>\<open>s.astype(bool)\<close>.\<close>

definition series_map :: "(val \<Rightarrow> val) \<Rightarrow> series \<Rightarrow> series" where
  "series_map f a = \<lparr>s_index = s_index a, s_values = map f (s_values a)\<rparr>"

text \<open>The key of each row: the tuple of its cells in the named columns.\<close>

definition key_table :: "val list list \<Rightarrow> nat \<Rightarrow> val list list" where
  "key_table cols n = map (\<lambda>i. map (\<lambda>c. c ! i) cols) [0..<n]"

definition key_rows :: "frame \<Rightarrow> string list \<Rightarrow> error + val list list" where
  "key_rows df names =
     (case mapE (\<lambda>n. case map_of (columns df) n of
                        None \<Rightarrow> Inl (KeyError n)
                      | Some vs \<Rightarrow> Inr vs) names of
        Inl e \<Rightarrow> Inl e
      | Inr cols \<Rightarrow> Inr (key_table cols (length (index df))))"

text \<open>The sum of the cells that are not missing; 0 when there is none.\<close>

definition nansum :: "val list \<Rightarrow> float64" where
  "nansum vs = foldr fadd (filter (\<lambda>x. x \<noteq> NaN) (map to_float vs)) (Fin 0)"

text \<open>The sum of the cells \<open>vs\<close> over the rows whose key is \<open>g\<close>.\<close>

definition group_sum :: "val list list \<Rightarrow> val list \<Rightarrow> val list \<Rightarrow> val" where
  "group_sum keys vs g = FloatV (nansum (map snd (filter (\<lambda>(k, v). k = g) (zip keys vs))))"

text \<open>
  \<^verbatim>\<open>df.groupby(names).col.sum()\<close>: one row per distinct key, labelled by the key, holding
  the sum over the rows of that key. Rows with a missing cell in their key belong to no
  group. pandas sorts the groups by key; the order of the groups is immaterial here,
  since the result is only ever joined back by key.
\<close>

definition groupby_sum :: "frame \<Rightarrow> string list \<Rightarrow> string \<Rightarrow> error + series" where
  "groupby_sum df names col =
     (case key_rows df names of
        Inl e \<Rightarrow> Inl e
      | Inr keys \<Rightarrow>
          (case map_of (columns df) col of
             None \<Rightarrow> Inl (AttributeError col)
           | Some vs \<Rightarrow>
               (let groups = remdups (filter (\<lambda>k. \<not> list_ex isna k) keys)
                in Inr \<lparr>s_index = groups,
                        s_values = map (group_sum keys vs) groups\<rparr>)))"

text \<open>\<^verbatim>\<open>df.set_index(names, inplace=True, drop=False)\<close>: the keys become the row labels.\<close>

definition set_index :: "frame \<Rightarrow> string list \<Rightarrow> error + frame" where
  "set_index df names =
     (case key_rows df names of
        Inl e \<Rightarrow> Inl e
      | Inr keys \<Rightarrow> Inr (df\<lparr>index_names := names, index := keys\<rparr>))"

text \<open>\<^verbatim>\<open>df.reset_index(inplace=True, drop=True)\<close>: back to the default labels.\<close>

definition reset_index :: "frame \<Rightarrow> frame" where
  "reset_index df = df\<lparr>index_names := [], index := range_index (length (index df))\<rparr>"

text \<open>
  \<^verbatim>\<open>df.join(s)\<close> for a series named \<open>name\<close>: a left join on the row labels, into a new
  frame. Each row of \<open>df\<close> is paired with every row of \<open>s\<close> that has its label (or with a
  missing value when there is none), in the order of \<open>df\<close>. A column of that name in \<open>df\<close>
  is an error.
\<close>

definition join :: "frame \<Rightarrow> series \<Rightarrow> string \<Rightarrow> error + frame" where
  "join df s name =
     (if name \<in> set (map fst (columns df))
      then Inl (ValueError ''columns overlap but no suffix specified'')
      else
        (let matches = map (\<lambda>l. map snd (filter (\<lambda>(k, v). k = l) (zip (s_index s) (s_values s)))) (index df);
             rows = concat (map (\<lambda>(i, ms). replicate (max 1 (length ms)) i) (zip [0..<length (index df)] matches));
             new = concat (map (\<lambda>ms. if ms = [] then [FloatV NaN] else ms) matches)
         in Inr \<lparr>index_names = index_names df,
                 index = map (\<lambda>i. index df ! i) rows,
                 columns = map (\<lambda>(n, vs). (n, map (\<lambda>i. vs ! i) rows)) (columns df) @ [(name, new)]\<rparr>))"

section \<open>The module\<close>

definition COLUMN_NAMES :: "string list" where
  "COLUMN_NAMES = [''chrom'', ''intron_start'', ''intron_stop'', ''strand'',
                   ''intron_motif'', ''annotated'',
                   ''unique_junction_reads'', ''multimap_junction_reads'',
                   ''max_overhang'']"

text \<open>
  \<^verbatim>\<open>int_to_intron_motif\<close>: a chain of \<^verbatim>\<open>if n == k: return ...\<close>; a function body that ends
  without \<^verbatim>\<open>return\<close> returns \<^verbatim>\<open>None\<close>.
\<close>

definition int_to_intron_motif :: "val \<Rightarrow> val" where
  "int_to_intron_motif n =
     (if py_eq_int n 0 then StrV ''non-canonical''
      else if py_eq_int n 1 then StrV ''GT/AG''
      else if py_eq_int n 2 then StrV ''CT/AC''
      else if py_eq_int n 3 then StrV ''GC/AG''
      else if py_eq_int n 4 then StrV ''CT/GC''
      else if py_eq_int n 5 then StrV ''AT/AC''
      else if py_eq_int n 6 then StrV ''GT/AT''
      else NoneV)"

text \<open>
  \<^verbatim>\<open>read_sj_out_tab\<close>, from the table that \<^verbatim>\<open>pd.read_table\<close> has parsed (the file access
  itself is outside the model): the motif codes are mapped to labels and the annotation
  flags cast to bool.
\<close>

definition read_sj_out_tab :: "frame \<Rightarrow> error + frame" where
  "read_sj_out_tab parsed =
     (case getattr parsed ''intron_motif'' of
        Inl e \<Rightarrow> Inl e
      | Inr motif \<Rightarrow>
     (case setitem parsed ''intron_motif'' (series_map int_to_intron_motif motif) of
        Inl e \<Rightarrow> Inl e
      | Inr sj \<Rightarrow>
     (case getattr sj ''annotated'' of
        Inl e \<Rightarrow> Inl e
      | Inr annotated \<Rightarrow> setitem sj ''annotated'' (series_map astype_bool annotated))))"

text \<open>
  A statement that changes the frame in place either raises, leaving the frame as it was,
  or yields the changed frame. A sequence of such statements runs until one raises; the
  frame a caller holds is then in the state the last completed statement left it in.
\<close>

fun run_inplace :: "(frame \<Rightarrow> error + frame) list \<Rightarrow> frame \<Rightarrow> frame \<times> error option" where
  "run_inplace [] sj = (sj, None)"
| "run_inplace (c # cs) sj =
     (case c sj of
        Inl e \<Rightarrow> (sj, Some e)
      | Inr sj' \<Rightarrow> run_inplace cs sj')"

text \<open>
  Lines 145 to 148, \<^verbatim>\<open>sj[dst] = sj.src[sj.src >= threshold]\<close>: the counts that reach the
  threshold, stored as a column of \<open>sj\<close> itself (the source reads \<^verbatim>\<open>sj.src\<close> twice, with
  the same result).
\<close>

definition filter_reads :: "string \<Rightarrow> string \<Rightarrow> int \<Rightarrow> frame \<Rightarrow> error + frame" where
  "filter_reads src dst threshold sj =
     (case getattr sj src of
        Inl e \<Rightarrow> Inl e
      | Inr reads \<Rightarrow>
     (case series_ge reads threshold of
        Inl e \<Rightarrow> Inl e
      | Inr keep \<Rightarrow> setitem sj dst (getitem_mask reads keep)))"

text \<open>
  Lines 149 and 150,
  \<^verbatim>\<open>sj['total_filtered_reads'] = sj.multimap_junction_reads_filtered.add(sj.unique_junction_reads_filtered)\<close>.
\<close>

definition total_reads :: "frame \<Rightarrow> error + frame" where
  "total_reads sj =
     (case getattr sj ''multimap_junction_reads_filtered'' of
        Inl e \<Rightarrow> Inl e
      | Inr multimap \<Rightarrow>
     (case getattr sj ''unique_junction_reads_filtered'' of
        Inl e \<Rightarrow> Inl e
      | Inr unique \<Rightarrow>
     (case series_add multimap unique of
        Inl e \<Rightarrow> Inl e
      | Inr tot \<Rightarrow> setitem sj ''total_filtered_reads'' tot)))"

text \<open>Line 151, \<^verbatim>\<open>sj.total_filtered_reads = sj.total_filtered_reads.astype('float')\<close>.\<close>

definition total_astype :: "frame \<Rightarrow> error + frame" where
  "total_astype sj =
     (case getattr sj ''total_filtered_reads'' of
        Inl e \<Rightarrow> Inl e
      | Inr tot \<Rightarrow>
     (case series_astype_float tot of
        Inl e \<Rightarrow> Inl e
      | Inr tot' \<Rightarrow> setitem sj ''total_filtered_reads'' tot'))"

text \<open>
  The dictionary \<^verbatim>\<open>groupbys\<close>, in insertion order (the order in which Python 3.7 and
  later iterate it).
\<close>

definition groupbys :: "(string \<times> string list) list" where
  "groupbys = [(''psi5'', [''chrom'', ''intron_start'']),
               (''psi3'', [''chrom'', ''intron_stop''])]"

text \<open>
  One pass of the loop, lines 160 to 166, on the frame \<open>sj\<close> is bound to. The group sums
  \<open>s\<close> are named \<open>denominator\<close> (the name is passed to the join here). \<^verbatim>\<open>set_index\<close>
  changes the frame in place; \<^verbatim>\<open>sj = sj.join(s)\<close> then binds \<open>sj\<close> to a new frame, which
  gets the score column and the default labels. The result is the old frame as the pass
  leaves it, and the new frame or the exception.
\<close>

definition psi_step :: "string \<times> string list \<Rightarrow> frame \<Rightarrow> frame \<times> (error + frame)" where
  "psi_step g sj =
     (let name = fst g; groupby = snd g; denominator = name @ ''_denominator'' in
      case groupby_sum sj groupby ''total_filtered_reads'' of
        Inl e \<Rightarrow> (sj, Inl e)
      | Inr s \<Rightarrow>
     (case set_index sj groupby of
        Inl e \<Rightarrow> (sj, Inl e)
      | Inr sj1 \<Rightarrow>
          (sj1,
           case join sj1 s denominator of
             Inl e \<Rightarrow> Inl e
           | Inr joined \<Rightarrow>
          (case getattr joined ''total_filtered_reads'' of
             Inl e \<Rightarrow> Inl e
           | Inr tot \<Rightarrow>
          (case getitem joined denominator of
             Inl e \<Rightarrow> Inl e
           | Inr d \<Rightarrow>
          (case series_truediv tot d of
             Inl e \<Rightarrow> Inl e
           | Inr psi \<Rightarrow>
          (case setitem joined name psi of
             Inl e \<Rightarrow> Inl e
           | Inr scored \<Rightarrow> Inr (reset_index scored))))))))"

text \<open>
  The loop: every pass after the first works on the frame the pass before it created, so
  only the first pass touches the frame the loop was entered with.
\<close>

fun psi_loop :: "(string \<times> string list) list \<Rightarrow> frame \<Rightarrow> frame \<times> (error + frame)" where
  "psi_loop [] sj = (sj, Inr sj)"
| "psi_loop (g # gs) sj =
     (case psi_step g sj of
        (sj', Inl e) \<Rightarrow> (sj', Inl e)
      | (sj', Inr new) \<Rightarrow> (sj', snd (psi_loop gs new)))"

text \<open>
  \<^verbatim>\<open>get_psis(sj, min_unique, min_multimap)\<close>. The first component of the result is the
  caller's frame after the call, the second what the call returns or raises.
\<close>

definition get_psis :: "frame \<Rightarrow> int \<Rightarrow> int \<Rightarrow> frame \<times> (error + frame)" where
  "get_psis sj min_unique min_multimap =
     (case run_inplace
             [filter_reads ''multimap_junction_reads'' ''multimap_junction_reads_filtered'' min_multimap,
              filter_reads ''unique_junction_reads'' ''unique_junction_reads_filtered'' min_unique,
              total_reads,
              total_astype] sj of
        (sj', Some e) \<Rightarrow> (sj', Inl e)
      | (sj', None) \<Rightarrow> psi_loop groupbys sj')"

section \<open>Input tables and the worked example\<close>

text \<open>The table of the docstring of \<^verbatim>\<open>get_psis\<close>, with the columns in the order it prints.\<close>

definition example_sj :: frame where
  "example_sj =
     \<lparr>index_names = [],
      index = range_index 3,
      columns =
        [(''chrom'', [StrV ''chr1'', StrV ''chr1'', StrV ''chr1'']),
         (''intron_start'', [IntV 100, IntV 100, IntV 130]),
         (''intron_stop'', [IntV 100, IntV 200, IntV 200]),
         (''multimap_junction_reads'', [IntV 0, IntV 0, IntV 0]),
         (''unique_junction_reads'', [IntV 90, IntV 10, IntV 40])]\<rparr>"

text \<open>
  A well-formed input: every column has one cell per row, the column names are distinct,
  the row labels are distinct (as the default labels are), the two count columns hold
  numbers, the three key columns have no missing cell, and no column has the name of a
  column that \<^verbatim>\<open>get_psis\<close> adds.
\<close>

fun is_number :: "val \<Rightarrow> bool" where
  "is_number (IntV a) = True"
| "is_number (FloatV x) = True"
| "is_number _ = False"


definition has_column :: "frame \<Rightarrow> string \<Rightarrow> (val \<Rightarrow> bool) \<Rightarrow> bool" where
  "has_column df name P =
     (case map_of (columns df) name of None \<Rightarrow> False | Some vs \<Rightarrow> list_all P vs)"

definition column :: "frame \<Rightarrow> string \<Rightarrow> val list" where
  "column df name = (case map_of (columns df) name of None \<Rightarrow> [] | Some vs \<Rightarrow> vs)"

definition rectangular :: "frame \<Rightarrow> bool" where
  "rectangular df = list_all (\<lambda>(n, vs). length vs = length (index df)) (columns df)"

definition counts_ok :: "frame \<Rightarrow> bool" where
  "counts_ok df \<longleftrightarrow>
     distinct (index df) \<and> rectangular df \<and>
     has_column df ''multimap_junction_reads'' is_number \<and>
     has_column df ''unique_junction_reads'' is_number"

definition keys_ok :: "frame \<Rightarrow> bool" where
  "keys_ok df \<longleftrightarrow>
     has_column df ''chrom'' (\<lambda>v. \<not> isna v) \<and>
     has_column df ''intron_start'' (\<lambda>v. \<not> isna v) \<and>
     has_column df ''intron_stop'' (\<lambda>v. \<not> isna v)"

definition derived_names :: "string list" where
  "derived_names = [''multimap_junction_reads_filtered'', ''unique_junction_reads_filtered'',
                    ''total_filtered_reads'', ''psi5_denominator'', ''psi5'',
                    ''psi3_denominator'', ''psi3'']"

definition input_ok :: "frame \<Rightarrow> bool" where
  "input_ok df \<longleftrightarrow>
     counts_ok df \<and> keys_ok df \<and> distinct (map fst (columns df)) \<and>
     list_all (\<lambda>n. n \<notin> set (map fst (columns df))) derived_names"


section \<open>The columns \<^verbatim>\<open>get_psis\<close> computes, in closed form\<close>

text \<open>
  \<open>filtered k vs\<close> is the column stored by lines 145 to 148, \<open>totals\<close> the one stored by
  lines 149 to 151, \<open>denominators\<close> the one the join adds and \<open>ratios\<close> the score.
\<close>

definition passes :: "int \<Rightarrow> val \<Rightarrow> bool" where
  "passes k v = (py_ge v k = Inr True)"

definition filtered :: "int \<Rightarrow> val list \<Rightarrow> val list" where
  "filtered k vs =
     (if list_all (passes k) vs then vs
      else map (\<lambda>v. if passes k v then upcast v else FloatV NaN) vs)"

definition totals :: "val list \<Rightarrow> val list \<Rightarrow> val list" where
  "totals ms us = map (\<lambda>(a, b). FloatV (fadd (to_float a) (to_float b))) (zip ms us)"

definition denominators :: "val list list \<Rightarrow> val list \<Rightarrow> val list" where
  "denominators keys ts = map (group_sum keys ts) keys"

definition ratios :: "val list \<Rightarrow> val list \<Rightarrow> val list" where
  "ratios ts ds = map (\<lambda>(t, d). FloatV (fdiv (to_float t) (to_float d))) (zip ts ds)"

text \<open>The caller's frame after lines 145 to 151: three columns stored in place.\<close>

definition with_totals :: "int \<Rightarrow> int \<Rightarrow> frame \<Rightarrow> frame" where
  "with_totals min_unique min_multimap df =
     (let mf = filtered min_multimap (column df ''multimap_junction_reads'');
          uf = filtered min_unique (column df ''unique_junction_reads'')
      in df\<lparr>columns :=
              AList.update ''total_filtered_reads'' (totals mf uf)
                (AList.update ''unique_junction_reads_filtered'' uf
                  (AList.update ''multimap_junction_reads_filtered'' mf (columns df)))\<rparr>)"

text \<open>The keys of the rows of a frame for a pair of key columns.\<close>

definition keys_of :: "frame \<Rightarrow> string list \<Rightarrow> val list list" where
  "keys_of df names = key_table (map (column df) names) (length (index df))"

text \<open>
  What one pass of the loop returns for the score \<open>name\<close> and the key columns \<open>groupby\<close>:
  the frame with the denominator appended and the score stored, under the default labels.
\<close>

definition scored :: "string \<times> string list \<Rightarrow> frame \<Rightarrow> frame" where
  "scored g df =
     (let ts = column df ''total_filtered_reads'';
          ds = denominators (keys_of df (snd g)) ts
      in \<lparr>index_names = [],
          index = range_index (length (index df)),
          columns = AList.update (fst g) (ratios ts ds) (columns df @ [(fst g @ ''_denominator'', ds)])\<rparr>)"

text \<open>
  The table \<^verbatim>\<open>get_psis\<close> returns for a well-formed input: the input columns followed by
  the seven added columns, under the default row labels.
\<close>

definition psi_table :: "int \<Rightarrow> int \<Rightarrow> frame \<Rightarrow> frame" where
  "psi_table min_unique min_multimap df =
     (let mf = filtered min_multimap (column df ''multimap_junction_reads'');
          uf = filtered min_unique (column df ''unique_junction_reads'');
          ts = totals mf uf;
          d5 = denominators (keys_of df [''chrom'', ''intron_start'']) ts;
          d3 = denominators (keys_of df [''chrom'', ''intron_stop'']) ts
      in \<lparr>index_names = [],
          index = range_index (length (index df)),
          columns = columns df @
            [(''multimap_junction_reads_filtered'', mf),
             (''unique_junction_reads_filtered'', uf),
             (''total_filtered_reads'', ts),
             (''psi5_denominator'', d5),
             (''psi5'', ratios ts d5),
             (''psi3_denominator'', d3),
             (''psi3'', ratios ts d3)]\<rparr>)"

text \<open>The caller's frame after a successful call on a well-formed input.\<close>

definition caller_table :: "int \<Rightarrow> int \<Rightarrow> frame \<Rightarrow> frame" where
  "caller_table min_unique min_multimap df =
     (let mf = filtered min_multimap (column df ''multimap_junction_reads'');
          uf = filtered min_unique (column df ''unique_junction_reads'')
      in \<lparr>index_names = [''chrom'', ''intron_start''],
          index = keys_of df [''chrom'', ''intron_start''],
          columns = columns df @
            [(''multimap_junction_reads_filtered'', mf),
             (''unique_junction_reads_filtered'', uf),
             (''total_filtered_reads'', totals mf uf)]\<rparr>)"




text \<open>
  One parsed line of an \<^verbatim>\<open>SJ.out.tab\<close> file whose motif code, 7, is outside the range that
  STAR documents.
\<close>

definition example_parsed :: frame where
  "example_parsed =
     \<lparr>index_names = [],
      index = range_index 1,
      columns =
        [(''chrom'', [StrV ''chr1'']),
         (''intron_start'', [IntV 100]),
         (''intron_stop'', [IntV 200]),
         (''strand'', [IntV 1]),
         (''intron_motif'', [IntV 7]),
         (''annotated'', [IntV 1]),
         (''unique_junction_reads'', [IntV 12]),
         (''multimap_junction_reads'', [IntV 0]),
         (''max_overhang'', [IntV 30])]\<rparr>"


section \<open>Properties of the operations\<close>

lemma mapE_Inr:
  "(\<And>x. x \<in> set xs \<Longrightarrow> f x = Inr (g x)) \<Longrightarrow> mapE f xs = Inr (map g xs)"
  by (induction xs) auto


lemma py_ge_num: "is_number v \<Longrightarrow> py_ge v k = Inr (passes k v)"
  by (cases "(v, k)" rule: py_ge.cases) (auto simp: passes_def)

lemma map_of_zip_None: "l \<notin> set ks \<Longrightarrow> map_of (zip ks ws) l = None"
  by (simp add: map_of_eq_None_iff) (auto dest: set_zip_leftD)

lemma map_of_filtered_None:
  assumes "l \<notin> set ls"
  shows "map_of (zip (map fst (filter snd (zip ls bs))) ws) l = None"
proof -
  have "l \<notin> set (map fst (filter snd (zip ls bs)))"
    using assms by (auto dest: set_zip_leftD)
  then show ?thesis
    by (rule map_of_zip_None)
qed

lemma map_if_not_mem: "l \<notin> set ls \<Longrightarrow> map (\<lambda>a. if a = l then x else m a) ls = map m ls"
  by (induction ls) auto

lemma align_lookup:
  "length ls = length vs \<Longrightarrow> length vs = length bs \<Longrightarrow> distinct ls \<Longrightarrow>
   map (map_of (zip (map fst (filter snd (zip ls bs))) (map fst (filter snd (zip vs bs))))) ls
   = map (\<lambda>(v, b). if b then Some v else None) (zip vs bs)"
proof (induction ls vs bs rule: list_induct3)
  case Nil
  then show ?case by simp
next
  case (Cons l ls v vs b bs)
  have d: "distinct ls" and nl: "l \<notin> set ls" using Cons.prems by auto
  show ?case
  proof (cases b)
    case True
    then show ?thesis using Cons.IH[OF d] by (simp add: map_if_not_mem[OF nl])
  next
    case False
    then show ?thesis using Cons.IH[OF d] map_of_filtered_None[OF nl] by simp
  qed
qed

lemma zip_map_self: "map h (zip vs (map P vs)) = map (\<lambda>v. h (v, P v)) vs"
  by (induction vs) auto

lemma mask_all_true:
  "length xs = length vs \<Longrightarrow> list_all P vs \<Longrightarrow> map fst (filter snd (zip xs (map P vs))) = xs"
  by (induction xs vs rule: list_induct2) auto

lemma mask_length_le: "length (filter snd (zip xs bs)) \<le> length xs"
proof -
  have "length (filter snd (zip xs bs)) \<le> length (zip xs bs)" by (rule length_filter_le)
  then show ?thesis by simp
qed

lemma mask_some_false:
  "length xs = length vs \<Longrightarrow> \<not> list_all P vs \<Longrightarrow> length (filter snd (zip xs (map P vs))) < length xs"
proof (induction xs vs rule: list_induct2)
  case Nil
  then show ?case by simp
next
  case (Cons x xs v vs)
  show ?case
  proof (cases "P v")
    case True
    then show ?thesis using Cons by simp
  next
    case False
    then show ?thesis using mask_length_le[of xs "map P vs"] by simp
  qed
qed

lemma mask_distinct: "distinct ls \<Longrightarrow> distinct (map fst (filter snd (zip ls bs)))"
proof (induction ls arbitrary: bs)
  case Nil
  then show ?case by simp
next
  case (Cons l ls)
  show ?case
  proof (cases bs)
    case Nil
    then show ?thesis by simp
  next
    case (Cons b bs')
    have "l \<notin> set (map fst (filter snd (zip ls bs')))"
      using Cons.prems by (auto dest: set_zip_leftD)
    then show ?thesis using Cons Cons.IH[of bs'] Cons.prems by simp
  qed
qed

lemma reindex_filtered:
  assumes d: "distinct (index df)" and len: "length vs = length (index df)"
  shows "reindex_for_setitem df (getitem_mask \<lparr>s_index = index df, s_values = vs\<rparr> (map (passes k) vs))
         = Inr (filtered k vs)"
proof (cases "list_all (passes k) vs")
  case True
  have "map fst (filter snd (zip (index df) (map (passes k) vs))) = index df"
    using len True by (simp add: mask_all_true)
  moreover have "map fst (filter snd (zip vs (map (passes k) vs))) = vs"
    using True by (simp add: mask_all_true)
  ultimately show ?thesis using True
    by (simp add: reindex_for_setitem_def getitem_mask_def filtered_def)
next
  case False
  let ?bs = "map (passes k) vs"
  let ?ix = "map fst (filter snd (zip (index df) ?bs))"
  let ?vals = "map fst (filter snd (zip vs ?bs))"
  have "length ?ix < length (index df)"
    using mask_some_false[of "index df" vs "passes k"] len False by simp
  then have "length ?ix \<noteq> length (index df)" by simp
  then have ne: "?ix \<noteq> index df" by metis
  have dist: "distinct ?ix" using d by (rule mask_distinct)
  have found: "map (map_of (zip ?ix ?vals)) (index df) = map (\<lambda>v. if passes k v then Some v else None) vs"
    using align_lookup[of "index df" vs ?bs] len d by (simp add: zip_map_self)
  have none: "None \<in> set (map (\<lambda>v. if passes k v then Some v else None) vs)"
    using False by (auto simp: list_all_iff)
  have "reindex_for_setitem df \<lparr>s_index = ?ix, s_values = ?vals\<rparr>
        = Inr (map (\<lambda>f. case f of None \<Rightarrow> FloatV NaN | Some v \<Rightarrow> upcast v)
                 (map (\<lambda>v. if passes k v then Some v else None) vs))"
    unfolding reindex_for_setitem_def using ne dist none found by (simp add: Let_def)
  also have "\<dots> = Inr (filtered k vs)"
    using False by (simp add: filtered_def comp_def if_distrib cong: if_cong)
  finally show ?thesis by (simp add: getitem_mask_def)
qed

lemma map_of_length:
  "rectangular df \<Longrightarrow> map_of (columns df) name = Some vs \<Longrightarrow> length vs = length (index df)"
  by (auto simp: rectangular_def list_all_iff dest: map_of_SomeD)

lemma filter_reads_ok:
  assumes "distinct (index df)" and "rectangular df"
    and "map_of (columns df) src = Some vs" and "list_all is_number vs"
  shows "filter_reads src dst k df = Inr (df\<lparr>columns := AList.update dst (filtered k vs) (columns df)\<rparr>)"
proof -
  have len: "length vs = length (index df)" using assms(2,3) by (rule map_of_length)
  have ge: "mapE (\<lambda>v. py_ge v k) vs = Inr (map (passes k) vs)"
    using assms(4) by (intro mapE_Inr) (auto simp: list_all_iff py_ge_num)
  show ?thesis
    using assms(3) ge reindex_filtered[OF assms(1) len, of k]
    by (simp add: filter_reads_def getattr_def series_ge_def setitem_def)
qed

lemma filtered_length [simp]: "length (filtered k vs) = length vs"
  by (simp add: filtered_def)

lemma upcast_number: "is_number v \<Longrightarrow> is_number (upcast v)"
  by (cases v) auto

lemma filtered_number: "list_all is_number vs \<Longrightarrow> list_all is_number (filtered k vs)"
  by (auto simp: filtered_def list_all_iff upcast_number)

lemma rectangular_update:
  "rectangular df \<Longrightarrow> length vs = length (index df) \<Longrightarrow>
   rectangular (df\<lparr>columns := AList.update name vs (columns df)\<rparr>)"
proof -
  assume r: "rectangular df" and l: "length vs = length (index df)"
  have "\<And>al. list_all (\<lambda>(n, ws). length ws = length (index df)) al \<Longrightarrow>
          list_all (\<lambda>(n, ws). length ws = length (index df)) (AList.update name vs al)"
  proof -
    fix al show "list_all (\<lambda>(n, ws). length ws = length (index df)) al \<Longrightarrow>
          list_all (\<lambda>(n, ws). length ws = length (index df)) (AList.update name vs al)"
      using l by (induction al) auto
  qed
  then show ?thesis using r by (simp add: rectangular_def)
qed

lemma val_add_number:
  "is_number x \<Longrightarrow> is_number y \<Longrightarrow>
   \<exists>w. val_add x y = Inr w \<and> astype_float w = Inr (FloatV (fadd (to_float x) (to_float y)))"
  by (cases x; cases y) (auto simp: to_float_def)

lemma setitem_same_index:
  "setitem df name \<lparr>s_index = index df, s_values = vs\<rparr>
   = Inr (df\<lparr>columns := AList.update name vs (columns df)\<rparr>)"
  by (simp add: setitem_def reindex_for_setitem_def)

lemma totals_mapE:
  "list_all is_number ms \<Longrightarrow> list_all is_number us \<Longrightarrow>
   \<exists>ts. mapE (\<lambda>(x, y). val_add x y) (zip ms us) = Inr ts \<and> mapE astype_float ts = Inr (totals ms us)"
proof (induction ms arbitrary: us)
  case Nil
  then show ?case by (simp add: totals_def)
next
  case (Cons m ms)
  show ?case
  proof (cases us)
    case Nil
    then show ?thesis by (simp add: totals_def)
  next
    case (Cons u us')
    have "is_number m" "is_number u" using Cons.prems Cons by simp_all
    then obtain w where w: "val_add m u = Inr w"
      "astype_float w = Inr (FloatV (fadd (to_float m) (to_float u)))"
      using val_add_number by blast
    have "list_all is_number ms" "list_all is_number us'" using Cons.prems Cons by simp_all
    then obtain ts where ts: "mapE (\<lambda>(x, y). val_add x y) (zip ms us') = Inr ts"
      "mapE astype_float ts = Inr (totals ms us')"
      using Cons.IH by blast
    show ?thesis using Cons w ts by (simp add: totals_def)
  qed
qed

lemma setitem_aligned:
  "s_index s = index df \<Longrightarrow>
   setitem df name s = Inr (df\<lparr>columns := AList.update name (s_values s) (columns df)\<rparr>)"
  by (simp add: setitem_def reindex_for_setitem_def)

lemma total_reads_ok:
  assumes "map_of (columns df) ''multimap_junction_reads_filtered'' = Some ms"
    and "map_of (columns df) ''unique_junction_reads_filtered'' = Some us"
    and "list_all is_number ms" and "list_all is_number us"
  shows "\<exists>ts. total_reads df = Inr (df\<lparr>columns := AList.update ''total_filtered_reads'' ts (columns df)\<rparr>)
            \<and> mapE astype_float ts = Inr (totals ms us)"
proof -
  obtain ts where ts: "mapE (\<lambda>(x, y). val_add x y) (zip ms us) = Inr ts"
    "mapE astype_float ts = Inr (totals ms us)"
    using totals_mapE[OF assms(3,4)] by blast
  have "total_reads df = Inr (df\<lparr>columns := AList.update ''total_filtered_reads'' ts (columns df)\<rparr>)"
    using assms(1,2) ts(1)
    by (simp add: total_reads_def getattr_def series_add_def setitem_same_index)
  then show ?thesis using ts(2) by blast
qed

lemma total_astype_ok:
  assumes "map_of (columns df) ''total_filtered_reads'' = Some ts"
    and "mapE astype_float ts = Inr ts'"
  shows "total_astype df = Inr (df\<lparr>columns := AList.update ''total_filtered_reads'' ts' (columns df)\<rparr>)"
  using assms by (simp add: total_astype_def getattr_def series_astype_float_def setitem_same_index)

lemma has_columnD:
  "has_column df name P \<Longrightarrow> map_of (columns df) name = Some (column df name) \<and> list_all P (column df name)"
  by (auto simp: has_column_def column_def split: option.splits)

lemma prepare_ok:
  assumes "counts_ok df"
  shows "run_inplace
           [filter_reads ''multimap_junction_reads'' ''multimap_junction_reads_filtered'' m,
            filter_reads ''unique_junction_reads'' ''unique_junction_reads_filtered'' u,
            total_reads, total_astype] df
         = (with_totals u m df, None)"
proof -
  let ?M = "column df ''multimap_junction_reads''"
  let ?U = "column df ''unique_junction_reads''"
  let ?mf = "filtered m ?M"
  let ?uf = "filtered u ?U"
  have d: "distinct (index df)" and r: "rectangular df"
    using assms by (simp_all add: counts_ok_def)
  have "has_column df ''multimap_junction_reads'' is_number"
    using assms by (simp add: counts_ok_def)
  then have M: "map_of (columns df) ''multimap_junction_reads'' = Some ?M" "list_all is_number ?M"
    by (simp_all add: has_columnD)
  have "has_column df ''unique_junction_reads'' is_number"
    using assms by (simp add: counts_ok_def)
  then have U: "map_of (columns df) ''unique_junction_reads'' = Some ?U" "list_all is_number ?U"
    by (simp_all add: has_columnD)
  let ?df1 = "df\<lparr>columns := AList.update ''multimap_junction_reads_filtered'' ?mf (columns df)\<rparr>"
  have s1: "filter_reads ''multimap_junction_reads'' ''multimap_junction_reads_filtered'' m df = Inr ?df1"
    using d r M by (rule filter_reads_ok)
  have r1: "rectangular ?df1"
    using r map_of_length[OF r M(1)] by (intro rectangular_update) simp_all
  have U1: "map_of (columns ?df1) ''unique_junction_reads'' = Some ?U"
    using U(1) by (simp add: update_conv')
  let ?df2 = "?df1\<lparr>columns := AList.update ''unique_junction_reads_filtered'' ?uf (columns ?df1)\<rparr>"
  have s2: "filter_reads ''unique_junction_reads'' ''unique_junction_reads_filtered'' u ?df1 = Inr ?df2"
    using U1 U(2) d r1 by (intro filter_reads_ok) simp_all
  have mf2: "map_of (columns ?df2) ''multimap_junction_reads_filtered'' = Some ?mf"
    and uf2: "map_of (columns ?df2) ''unique_junction_reads_filtered'' = Some ?uf"
    by (simp_all add: update_conv')
  obtain ts where ts: "total_reads ?df2 = Inr (?df2\<lparr>columns := AList.update ''total_filtered_reads'' ts (columns ?df2)\<rparr>)"
     "mapE astype_float ts = Inr (totals ?mf ?uf)"
    using total_reads_ok[OF mf2 uf2 filtered_number[OF M(2)] filtered_number[OF U(2)]] by blast
  let ?df3 = "?df2\<lparr>columns := AList.update ''total_filtered_reads'' ts (columns ?df2)\<rparr>"
  have s4: "total_astype ?df3 = Inr (?df3\<lparr>columns := AList.update ''total_filtered_reads'' (totals ?mf ?uf) (columns ?df3)\<rparr>)"
    using ts(2) by (intro total_astype_ok) (simp_all add: update_conv')
  show ?thesis
    using s1 s2 ts(1) s4 by (simp add: with_totals_def Let_def)
qed

lemma filter_key_None: "l \<notin> fst ` set xs \<Longrightarrow> filter (\<lambda>(k, v). k = l) xs = []"
  by (induction xs) auto

lemma filter_key_unique:
  "distinct (map fst xs) \<Longrightarrow>
   map snd (filter (\<lambda>(k, v). k = l) xs) = (case map_of xs l of None \<Rightarrow> [] | Some v \<Rightarrow> [v])"
proof (induction xs)
  case Nil
  then show ?case by simp
next
  case (Cons p xs)
  obtain k v where p: "p = (k, v)" by (cases p)
  show ?case
  proof (cases "k = l")
    case True
    then have "l \<notin> fst ` set xs" using Cons.prems p by auto
    then show ?thesis using True p by (simp add: filter_key_None)
  next
    case False
    then show ?thesis using Cons p by simp
  qed
qed

lemma concat_singletons: "concat (map (\<lambda>x. [g x]) xs) = map g xs"
  by (induction xs) auto

lemma join_rows:
  assumes "length mss = n" and "\<forall>ms\<in>set mss. length ms \<le> 1"
  shows "concat (map (\<lambda>(i, ms). replicate (max 1 (length ms)) i) (zip [0..<n] mss)) = [0..<n]"
proof -
  have "map (\<lambda>(i, ms). replicate (max 1 (length ms)) i) (zip [0..<n] mss)
        = map (\<lambda>p. [fst p]) (zip [0..<n] mss)"
  proof (rule map_cong[OF refl])
    fix p assume "p \<in> set (zip [0..<n] mss)"
    then have "snd p \<in> set mss" by (metis prod.collapse set_zip_rightD)
    then have "length (snd p) \<le> 1" using assms(2) by blast
    then have "max 1 (length (snd p)) = 1" by (simp add: max_def)
    then show "(case p of (i, ms) \<Rightarrow> replicate (max 1 (length ms)) i) = [fst p]"
      by (cases p) simp
  qed
  then have "concat (map (\<lambda>(i, ms). replicate (max 1 (length ms)) i) (zip [0..<n] mss))
             = concat (map (\<lambda>p. [fst p]) (zip [0..<n] mss))"
    by (rule arg_cong)
  also have "\<dots> = map fst (zip [0..<n] mss)"
    by (rule concat_singletons)
  also have "\<dots> = [0..<n]" using assms(1) by simp
  finally show ?thesis .
qed

lemma columns_take_all:
  assumes "list_all (\<lambda>(nm, vs). length vs = n) cols"
  shows "map (\<lambda>(nm, vs). (nm, map (\<lambda>i. vs ! i) [0..<n])) cols = cols"
proof -
  have "map (\<lambda>(nm, vs). (nm, map (\<lambda>i. vs ! i) [0..<n])) cols = map (\<lambda>p. p) cols"
  proof (rule map_cong[OF refl])
    fix p assume "p \<in> set cols"
    then have "length (snd p) = n" using assms by (auto simp: list_all_iff)
    then have "map (\<lambda>i. snd p ! i) [0..<n] = snd p" using map_nth[of "snd p"] by simp
    then show "(case p of (nm, vs) \<Rightarrow> (nm, map (\<lambda>i. vs ! i) [0..<n])) = p" by (cases p) simp
  qed
  then show ?thesis by simp
qed

lemma join_unique:
  assumes "distinct (s_index s)" and "rectangular df"
    and "name \<notin> set (map fst (columns df))"
  shows "join df s name =
         Inr \<lparr>index_names = index_names df, index = index df,
              columns = columns df @
                [(name, map (\<lambda>l. case map_of (zip (s_index s) (s_values s)) l of
                                  None \<Rightarrow> FloatV NaN | Some v \<Rightarrow> v) (index df))]\<rparr>"
proof -
  let ?xs = "zip (s_index s) (s_values s)"
  let ?n = "length (index df)"
  let ?look = "\<lambda>l. case map_of ?xs l of None \<Rightarrow> [] | Some v \<Rightarrow> [v]"
  have "map fst ?xs = take (min (length (s_index s)) (length (s_values s))) (s_index s)"
    by (rule map_fst_zip_take)
  then have dx: "distinct (map fst ?xs)" using assms(1) by simp
  have matches: "map (\<lambda>l. map snd (filter (\<lambda>(k, v). k = l) ?xs)) (index df) = map ?look (index df)"
    using dx by (simp add: filter_key_unique)
  have short: "\<forall>ms\<in>set (map ?look (index df)). length ms \<le> 1"
    by (auto split: option.splits)
  have rows: "concat (map (\<lambda>(i, ms). replicate (max 1 (length ms)) i) (zip [0..<?n] (map ?look (index df)))) = [0..<?n]"
    using short by (intro join_rows) simp_all
  have new: "concat (map (\<lambda>ms. if ms = [] then [FloatV NaN] else ms) (map ?look (index df)))
             = map (\<lambda>l. case map_of ?xs l of None \<Rightarrow> FloatV NaN | Some v \<Rightarrow> v) (index df)"
  proof -
    have "map (\<lambda>ms. if ms = [] then [FloatV NaN] else ms) (map ?look (index df))
          = map (\<lambda>l. [case map_of ?xs l of None \<Rightarrow> FloatV NaN | Some v \<Rightarrow> v]) (index df)"
      by (auto split: option.splits)
    then have "concat (map (\<lambda>ms. if ms = [] then [FloatV NaN] else ms) (map ?look (index df)))
          = concat (map (\<lambda>l. [case map_of ?xs l of None \<Rightarrow> FloatV NaN | Some v \<Rightarrow> v]) (index df))"
      by (rule arg_cong)
    also have "\<dots> = map (\<lambda>l. case map_of ?xs l of None \<Rightarrow> FloatV NaN | Some v \<Rightarrow> v) (index df)"
      by (rule concat_singletons)
    finally show ?thesis .
  qed
  have cols: "map (\<lambda>(nm, vs). (nm, map (\<lambda>i. vs ! i) [0..<?n])) (columns df) = columns df"
    using assms(2) by (intro columns_take_all) (simp add: rectangular_def)
  have ix: "map (\<lambda>i. index df ! i) [0..<?n] = index df" by (rule map_nth)
  show ?thesis
    unfolding join_def Let_def matches rows new cols ix using assms(3) by simp
qed

lemma key_table_length [simp]: "length (key_table cols n) = n"
  by (simp add: key_table_def)

lemma keys_of_length [simp]: "length (keys_of df names) = length (index df)"
  by (simp add: keys_of_def)

lemma key_rows_two:
  assumes "has_column df k1 P" and "has_column df k2 Q"
  shows "key_rows df [k1, k2] = Inr (keys_of df [k1, k2])"
  using has_columnD[OF assms(1)] has_columnD[OF assms(2)]
  by (simp add: key_rows_def keys_of_def)

lemma column_length:
  assumes "rectangular df" and "has_column df k P"
  shows "length (column df k) = length (index df)"
proof -
  have "map_of (columns df) k = Some (column df k)" using has_columnD[OF assms(2)] by simp
  then show ?thesis using assms(1) by (rule map_of_length[rotated])
qed

lemma keys_no_na:
  assumes "rectangular df"
    and "has_column df k1 (\<lambda>v. \<not> isna v)" and "has_column df k2 (\<lambda>v. \<not> isna v)"
  shows "filter (\<lambda>k. \<not> list_ex isna k) (keys_of df [k1, k2]) = keys_of df [k1, k2]"
proof -
  let ?c1 = "column df k1" and ?c2 = "column df k2"
  have c1: "length ?c1 = length (index df)" "list_all (\<lambda>v. \<not> isna v) ?c1"
    using has_columnD[OF assms(2)] column_length[OF assms(1,2)] by simp_all
  have c2: "length ?c2 = length (index df)" "list_all (\<lambda>v. \<not> isna v) ?c2"
    using has_columnD[OF assms(3)] column_length[OF assms(1,3)] by simp_all
  have "\<forall>k\<in>set (keys_of df [k1, k2]). \<not> list_ex isna k"
  proof
    fix k assume "k \<in> set (keys_of df [k1, k2])"
    then obtain i where i: "i < length (index df)" "k = [?c1 ! i, ?c2 ! i]"
      by (auto simp: keys_of_def key_table_def)
    have "\<not> isna (?c1 ! i)" using c1 i(1) by (simp add: list_all_length)
    moreover have "\<not> isna (?c2 ! i)" using c2 i(1) by (simp add: list_all_length)
    ultimately show "\<not> list_ex isna k" using i(2) by simp
  qed
  then show ?thesis by (simp add: filter_id_conv)
qed

lemma groupby_sum_ok:
  assumes "rectangular df"
    and "has_column df k1 (\<lambda>v. \<not> isna v)" and "has_column df k2 (\<lambda>v. \<not> isna v)"
    and "has_column df col P"
  shows "groupby_sum df [k1, k2] col =
         Inr \<lparr>s_index = remdups (keys_of df [k1, k2]),
              s_values = map (group_sum (keys_of df [k1, k2]) (column df col)) (remdups (keys_of df [k1, k2]))\<rparr>"
  using key_rows_two[OF assms(2,3)] keys_no_na[OF assms(1,2,3)] has_columnD[OF assms(4)]
  by (simp add: groupby_sum_def Let_def)

lemma denominators_lookup:
  "map (\<lambda>l. case map_of (zip (remdups keys) (map f (remdups keys))) l of
              None \<Rightarrow> FloatV NaN | Some v \<Rightarrow> v) keys = map f keys"
  by (simp add: map_of_zip_map)

lemma val_truediv_number:
  "is_number x \<Longrightarrow> is_number y \<Longrightarrow> val_truediv x y = Inr (FloatV (fdiv (to_float x) (to_float y)))"
  by (cases x; cases y) (simp_all add: val_truediv_def to_float_def)

lemma ratios_mapE:
  assumes "list_all is_number ts" and "list_all is_number ds"
  shows "mapE (\<lambda>(x, y). val_truediv x y) (zip ts ds) = Inr (ratios ts ds)"
  unfolding ratios_def
proof (rule mapE_Inr)
  fix p assume "p \<in> set (zip ts ds)"
  then have "is_number (fst p)" "is_number (snd p)"
    using assms by (metis list_all_iff prod.collapse set_zip_leftD, metis list_all_iff prod.collapse set_zip_rightD)
  then show "(case p of (x, y) \<Rightarrow> val_truediv x y) = Inr (case p of (t, d) \<Rightarrow> FloatV (fdiv (to_float t) (to_float d)))"
    by (cases p) (simp add: val_truediv_number)
qed

lemma denominators_number: "list_all is_number (denominators keys ts)"
  by (simp add: denominators_def group_sum_def list_all_iff)

lemma denominators_length [simp]: "length (denominators keys ts) = length keys"
  by (simp add: denominators_def)

lemma psi_step_ok:
  assumes r: "rectangular df"
    and k1: "has_column df k1 (\<lambda>v. \<not> isna v)" and k2: "has_column df k2 (\<lambda>v. \<not> isna v)"
    and t: "has_column df ''total_filtered_reads'' is_number"
    and fresh: "name @ ''_denominator'' \<notin> set (map fst (columns df))"
  shows "psi_step (name, [k1, k2]) df =
         (df\<lparr>index_names := [k1, k2], index := keys_of df [k1, k2]\<rparr>, Inr (scored (name, [k1, k2]) df))"
proof -
  let ?keys = "keys_of df [k1, k2]"
  let ?ts = "column df ''total_filtered_reads''"
  let ?ds = "denominators ?keys ?ts"
  let ?den = "name @ ''_denominator''"
  let ?s = "\<lparr>s_index = remdups ?keys, s_values = map (group_sum ?keys ?ts) (remdups ?keys)\<rparr>"
  let ?df1 = "df\<lparr>index_names := [k1, k2], index := ?keys\<rparr>"
  have g: "groupby_sum df [k1, k2] ''total_filtered_reads'' = Inr ?s"
    using r k1 k2 t by (rule groupby_sum_ok)
  have si: "set_index df [k1, k2] = Inr ?df1"
    using key_rows_two[OF k1 k2] by (simp add: set_index_def)
  have r1: "rectangular ?df1" using r by (simp add: rectangular_def)
  let ?joined = "\<lparr>index_names = [k1, k2], index = ?keys, columns = columns df @ [(?den, ?ds)]\<rparr>"
  have j: "join ?df1 ?s ?den = Inr ?joined"
    using join_unique[of ?s ?df1 ?den] r1 fresh
    by (simp add: denominators_lookup denominators_def)
  have tcol: "map_of (columns df) ''total_filtered_reads'' = Some ?ts" "list_all is_number ?ts"
    using has_columnD[OF t] by simp_all
  have ga: "getattr ?joined ''total_filtered_reads'' = Inr \<lparr>s_index = ?keys, s_values = ?ts\<rparr>"
    using tcol(1) by (simp add: getattr_def map_add_def)
  have "map_of (columns df) ?den = None"
    using fresh by (simp add: map_of_eq_None_iff)
  then have gi: "getitem ?joined ?den = Inr \<lparr>s_index = ?keys, s_values = ?ds\<rparr>"
    by (simp add: getitem_def map_add_def)
  have dv: "series_truediv \<lparr>s_index = ?keys, s_values = ?ts\<rparr> \<lparr>s_index = ?keys, s_values = ?ds\<rparr>
            = Inr \<lparr>s_index = ?keys, s_values = ratios ?ts ?ds\<rparr>"
    using ratios_mapE[OF tcol(2) denominators_number] by (simp add: series_truediv_def)
  have st: "setitem ?joined name \<lparr>s_index = ?keys, s_values = ratios ?ts ?ds\<rparr>
            = Inr (?joined\<lparr>columns := AList.update name (ratios ?ts ?ds) (columns ?joined)\<rparr>)"
    using setitem_same_index[of ?joined name "ratios ?ts ?ds"] by simp
  show ?thesis
    using g si j ga gi dv st
    by (simp add: psi_step_def Let_def scored_def reset_index_def)
qed

lemma update_fresh: "k \<notin> set (map fst al) \<Longrightarrow> AList.update k v al = al @ [(k, v)]"
  by (induction al) auto

lemma totals_length: "length ms = n \<Longrightarrow> length us = n \<Longrightarrow> length (totals ms us) = n"
  by (simp add: totals_def)

lemma totals_number: "list_all is_number (totals ms us)"
  by (auto simp: totals_def list_all_iff)

lemma ratios_length: "length ts = n \<Longrightarrow> length ds = n \<Longrightarrow> length (ratios ts ds) = n"
  by (simp add: ratios_def)

lemma range_index_length [simp]: "length (range_index n) = n"
  by (simp add: range_index_def)

lemma range_index_distinct: "distinct (range_index n)"
  by (simp add: range_index_def distinct_map inj_on_def)

lemma with_totals_index [simp]: "index (with_totals u m df) = index df"
  by (simp add: with_totals_def Let_def)

lemma with_totals_rectangular:
  assumes "counts_ok df"
  shows "rectangular (with_totals u m df)"
proof -
  have r: "rectangular df" using assms by (simp add: counts_ok_def)
  have "has_column df ''multimap_junction_reads'' is_number"
    using assms by (simp add: counts_ok_def)
  then have M: "length (column df ''multimap_junction_reads'') = length (index df)"
    by (rule column_length[OF r])
  have "has_column df ''unique_junction_reads'' is_number"
    using assms by (simp add: counts_ok_def)
  then have U: "length (column df ''unique_junction_reads'') = length (index df)"
    by (rule column_length[OF r])
  let ?df1 = "df\<lparr>columns := AList.update ''multimap_junction_reads_filtered''
      (filtered m (column df ''multimap_junction_reads'')) (columns df)\<rparr>"
  have r1: "rectangular ?df1" by (rule rectangular_update[OF r]) (simp add: M)
  let ?df2 = "?df1\<lparr>columns := AList.update ''unique_junction_reads_filtered''
      (filtered u (column df ''unique_junction_reads'')) (columns ?df1)\<rparr>"
  have r2: "rectangular ?df2" by (rule rectangular_update[OF r1]) (simp add: U)
  let ?ts = "totals (filtered m (column df ''multimap_junction_reads'')) (filtered u (column df ''unique_junction_reads''))"
  have "length ?ts = length (index df)" using M U by (intro totals_length) simp_all
  then have "rectangular (?df2\<lparr>columns := AList.update ''total_filtered_reads'' ?ts (columns ?df2)\<rparr>)"
    by (intro rectangular_update[OF r2]) simp
  then show ?thesis by (simp add: with_totals_def Let_def)
qed

lemma with_totals_has_column:
  assumes "k \<notin> {''multimap_junction_reads_filtered'', ''unique_junction_reads_filtered'', ''total_filtered_reads''}"
  shows "has_column (with_totals u m df) k P = has_column df k P"
  using assms by (simp add: with_totals_def Let_def has_column_def update_conv')

lemma with_totals_column:
  assumes "k \<notin> {''multimap_junction_reads_filtered'', ''unique_junction_reads_filtered'', ''total_filtered_reads''}"
  shows "column (with_totals u m df) k = column df k"
  using assms by (simp add: with_totals_def Let_def column_def update_conv')

lemma with_totals_total:
  "column (with_totals u m df) ''total_filtered_reads''
   = totals (filtered m (column df ''multimap_junction_reads'')) (filtered u (column df ''unique_junction_reads''))"
  by (simp add: with_totals_def Let_def column_def update_conv')

lemma with_totals_has_total: "has_column (with_totals u m df) ''total_filtered_reads'' is_number"
  by (simp add: with_totals_def Let_def has_column_def update_conv' totals_number)

lemma with_totals_names:
  "fst ` set (columns (with_totals u m df))
   = fst ` set (columns df) \<union> {''multimap_junction_reads_filtered'', ''unique_junction_reads_filtered'', ''total_filtered_reads''}"
  by (auto simp: with_totals_def Let_def dom_update)

lemma keys_of_cong:
  "length (index df') = length (index df) \<Longrightarrow> (\<And>k. k \<in> set names \<Longrightarrow> column df' k = column df k) \<Longrightarrow>
   keys_of df' names = keys_of df names"
  by (simp add: keys_of_def cong: map_cong)

lemma scored_index [simp]: "index (scored g df) = range_index (length (index df))"
  by (simp add: scored_def Let_def)

lemma scored_has_column:
  assumes "k \<noteq> fst g" and "k \<noteq> fst g @ ''_denominator''"
  shows "has_column (scored g df) k P = has_column df k P"
  using assms by (simp add: scored_def Let_def has_column_def update_conv' map_add_def split: option.splits)

lemma scored_column:
  assumes "k \<noteq> fst g" and "k \<noteq> fst g @ ''_denominator''"
  shows "column (scored g df) k = column df k"
  using assms by (simp add: scored_def Let_def column_def update_conv' map_add_def split: option.splits)

lemma scored_names:
  "fst ` set (columns (scored g df))
   = fst ` set (columns df) \<union> {fst g, fst g @ ''_denominator''}"
  by (auto simp: scored_def Let_def dom_update)

lemma rectangular_append:
  "rectangular df \<Longrightarrow> length vs = length (index df) \<Longrightarrow>
   rectangular (df\<lparr>columns := columns df @ [(name, vs)]\<rparr>)"
  by (simp add: rectangular_def)

lemma scored_rectangular:
  assumes r: "rectangular df" and t: "has_column df ''total_filtered_reads'' P"
  shows "rectangular (scored g df)"
proof -
  let ?n = "length (index df)"
  let ?ts = "column df ''total_filtered_reads''"
  let ?ds = "denominators (keys_of df (snd g)) ?ts"
  have lt: "length ?ts = ?n" using r t by (rule column_length)
  have ld: "length ?ds = ?n" by simp
  have lr: "length (ratios ?ts ?ds) = ?n" using lt ld by (rule ratios_length)
  let ?df1 = "df\<lparr>columns := columns df @ [(fst g @ ''_denominator'', ?ds)]\<rparr>"
  have r1: "rectangular ?df1" using r ld by (rule rectangular_append)
  have "rectangular (?df1\<lparr>columns := AList.update (fst g) (ratios ?ts ?ds) (columns ?df1)\<rparr>)"
    by (rule rectangular_update[OF r1]) (simp add: lr)
  then show ?thesis by (simp add: scored_def Let_def rectangular_def)
qed

lemma input_ok_fresh:
  assumes "input_ok df" and "k \<in> set derived_names"
  shows "k \<notin> set (map fst (columns df))"
  using assms by (simp add: input_ok_def list_all_iff)

lemma psi_loop_ok:
  assumes r: "rectangular df"
    and c: "has_column df ''chrom'' (\<lambda>v. \<not> isna v)"
    and a: "has_column df ''intron_start'' (\<lambda>v. \<not> isna v)"
    and b: "has_column df ''intron_stop'' (\<lambda>v. \<not> isna v)"
    and t: "has_column df ''total_filtered_reads'' is_number"
    and f5: "''psi5_denominator'' \<notin> set (map fst (columns df))"
    and f3: "''psi3_denominator'' \<notin> set (map fst (columns df))"
  shows "psi_loop groupbys df =
         (df\<lparr>index_names := [''chrom'', ''intron_start''],
             index := keys_of df [''chrom'', ''intron_start'']\<rparr>,
          Inr (scored (''psi3'', [''chrom'', ''intron_stop''])
                (scored (''psi5'', [''chrom'', ''intron_start'']) df)))"
proof -
  let ?g5 = "(''psi5'', [''chrom'', ''intron_start''])"
  let ?g3 = "(''psi3'', [''chrom'', ''intron_stop''])"
  let ?o5 = "scored ?g5 df"
  have s5: "psi_step ?g5 df =
      (df\<lparr>index_names := [''chrom'', ''intron_start''], index := keys_of df [''chrom'', ''intron_start'']\<rparr>,
       Inr ?o5)"
    using r c a t f5 by (intro psi_step_ok) simp_all
  have r5: "rectangular ?o5" using r t by (rule scored_rectangular)
  have c5: "has_column ?o5 ''chrom'' (\<lambda>v. \<not> isna v)"
    using c by (simp add: scored_has_column)
  have b5: "has_column ?o5 ''intron_stop'' (\<lambda>v. \<not> isna v)"
    using b by (simp add: scored_has_column)
  have t5: "has_column ?o5 ''total_filtered_reads'' is_number"
    using t by (simp add: scored_has_column)
  have f35: "''psi3'' @ ''_denominator'' \<notin> set (map fst (columns ?o5))"
    using f3 by (simp add: scored_names)
  have s3: "psi_step ?g3 ?o5 =
      (?o5\<lparr>index_names := [''chrom'', ''intron_stop''], index := keys_of ?o5 [''chrom'', ''intron_stop'']\<rparr>,
       Inr (scored ?g3 ?o5))"
    using r5 c5 b5 t5 f35 by (rule psi_step_ok)
  show ?thesis
    using s5 s3 by (simp add: groupbys_def)
qed

lemma with_totals_columns:
  assumes "input_ok df"
  shows "columns (with_totals u m df) = columns df @
           [(''multimap_junction_reads_filtered'', filtered m (column df ''multimap_junction_reads'')),
            (''unique_junction_reads_filtered'', filtered u (column df ''unique_junction_reads'')),
            (''total_filtered_reads'',
               totals (filtered m (column df ''multimap_junction_reads''))
                      (filtered u (column df ''unique_junction_reads'')))]"
proof -
  have f: "''multimap_junction_reads_filtered'' \<notin> set (map fst (columns df))"
    "''unique_junction_reads_filtered'' \<notin> set (map fst (columns df))"
    "''total_filtered_reads'' \<notin> set (map fst (columns df))"
    using assms by (simp_all add: input_ok_def derived_names_def)
  show ?thesis
    using f by (simp add: with_totals_def Let_def update_fresh)
qed

lemma scored_columns:
  assumes "fst g \<notin> set (map fst (columns df))"
  shows "columns (scored g df) = columns df @
           [(fst g @ ''_denominator'', denominators (keys_of df (snd g)) (column df ''total_filtered_reads'')),
            (fst g, ratios (column df ''total_filtered_reads'')
                      (denominators (keys_of df (snd g)) (column df ''total_filtered_reads'')))]"
  using assms by (simp add: scored_def Let_def update_fresh)

lemma get_psis_closed:
  assumes ok: "input_ok df"
  shows "get_psis df u m = (caller_table u m df, Inr (psi_table u m df))"
proof -
  let ?W = "with_totals u m df"
  let ?g5 = "(''psi5'', [''chrom'', ''intron_start''])"
  let ?g3 = "(''psi3'', [''chrom'', ''intron_stop''])"
  let ?o5 = "scored ?g5 ?W"
  let ?ts = "totals (filtered m (column df ''multimap_junction_reads''))
                    (filtered u (column df ''unique_junction_reads''))"
  have cok: "counts_ok df" and kok: "keys_ok df" using ok by (simp_all add: input_ok_def)
  have fresh: "\<And>k. k \<in> set derived_names \<Longrightarrow> k \<notin> fst ` set (columns df)"
    using input_ok_fresh[OF ok] by simp
  have pre: "run_inplace
           [filter_reads ''multimap_junction_reads'' ''multimap_junction_reads_filtered'' m,
            filter_reads ''unique_junction_reads'' ''unique_junction_reads_filtered'' u,
            total_reads, total_astype] df = (?W, None)"
    using cok by (rule prepare_ok)
  have rW: "rectangular ?W" using cok by (rule with_totals_rectangular)
  have cW: "has_column ?W ''chrom'' (\<lambda>v. \<not> isna v)"
    and aW: "has_column ?W ''intron_start'' (\<lambda>v. \<not> isna v)"
    and bW: "has_column ?W ''intron_stop'' (\<lambda>v. \<not> isna v)"
    using kok by (simp_all add: keys_ok_def with_totals_has_column)
  have tW: "has_column ?W ''total_filtered_reads'' is_number" by (rule with_totals_has_total)
  have f5: "''psi5_denominator'' \<notin> set (map fst (columns ?W))"
    using fresh[of "''psi5_denominator''"] by (simp add: with_totals_names derived_names_def)
  have f3: "''psi3_denominator'' \<notin> set (map fst (columns ?W))"
    using fresh[of "''psi3_denominator''"] by (simp add: with_totals_names derived_names_def)
  have loop: "psi_loop groupbys ?W =
         (?W\<lparr>index_names := [''chrom'', ''intron_start''],
             index := keys_of ?W [''chrom'', ''intron_start'']\<rparr>,
          Inr (scored ?g3 ?o5))"
    using rW cW aW bW tW f5 f3 by (rule psi_loop_ok)
  have k5: "keys_of ?W [''chrom'', ''intron_start''] = keys_of df [''chrom'', ''intron_start'']"
    by (rule keys_of_cong) (auto simp: with_totals_column)
  have colW: "columns ?W = columns df @
           [(''multimap_junction_reads_filtered'', filtered m (column df ''multimap_junction_reads'')),
            (''unique_junction_reads_filtered'', filtered u (column df ''unique_junction_reads'')),
            (''total_filtered_reads'', ?ts)]"
    using ok by (rule with_totals_columns)
  have caller: "?W\<lparr>index_names := [''chrom'', ''intron_start''],
             index := keys_of ?W [''chrom'', ''intron_start'']\<rparr> = caller_table u m df"
    unfolding k5 using colW by (simp add: caller_table_def Let_def with_totals_def)
  have tsW: "column ?W ''total_filtered_reads'' = ?ts" by (rule with_totals_total)
  have p5: "fst ?g5 \<notin> set (map fst (columns ?W))"
    using fresh[of "''psi5''"] by (simp add: with_totals_names derived_names_def)
  have col5: "columns ?o5 = columns ?W @
      [(''psi5_denominator'', denominators (keys_of df [''chrom'', ''intron_start'']) ?ts),
       (''psi5'', ratios ?ts (denominators (keys_of df [''chrom'', ''intron_start'']) ?ts))]"
    using scored_columns[OF p5] by (simp add: k5 tsW)
  have ts5: "column ?o5 ''total_filtered_reads'' = ?ts"
    by (simp add: scored_column tsW)
  have k3: "keys_of ?o5 [''chrom'', ''intron_stop''] = keys_of df [''chrom'', ''intron_stop'']"
    by (rule keys_of_cong) (auto simp: scored_column with_totals_column)
  have p3: "fst ?g3 \<notin> set (map fst (columns ?o5))"
    using fresh[of "''psi3''"] by (simp add: scored_names with_totals_names derived_names_def)
  have col3: "columns (scored ?g3 ?o5) = columns ?o5 @
      [(''psi3_denominator'', denominators (keys_of df [''chrom'', ''intron_stop'']) ?ts),
       (''psi3'', ratios ?ts (denominators (keys_of df [''chrom'', ''intron_stop'']) ?ts))]"
    using scored_columns[OF p3] by (simp add: k3 ts5)
  have "index_names (scored ?g3 ?o5) = []" "index (scored ?g3 ?o5) = range_index (length (index df))"
    by (simp_all add: scored_def Let_def)
  then have out: "scored ?g3 ?o5 = psi_table u m df"
    using col3 col5 colW by (simp add: psi_table_def Let_def)
  show ?thesis
    using pre loop caller out by (simp add: get_psis_def)
qed

lemma to_float_upcast [simp]: "to_float (upcast v) = to_float v"
  by (cases v) (simp_all add: to_float_def)











lemma fdiv_NaN_right [simp]: "fdiv x NaN = NaN"
  by (cases x) simp_all





lemma to_float_FloatV [simp]: "to_float (FloatV x) = x"
  by (simp add: to_float_def)




lemma column_appended:
  assumes "name \<notin> fst ` set cols"
  shows "column \<lparr>index_names = a, index = b, columns = cols @ extra\<rparr> name
         = (case map_of extra name of None \<Rightarrow> [] | Some vs \<Rightarrow> vs)"
proof -
  have "map_of cols name = None" using assms by (simp add: map_of_eq_None_iff)
  then show ?thesis by (simp add: column_def map_add_def)
qed


lemma psi_table_columns:
  assumes ok: "input_ok df"
  shows "column (psi_table u m df) ''multimap_junction_reads_filtered''
           = filtered m (column df ''multimap_junction_reads'')"
    and "column (psi_table u m df) ''unique_junction_reads_filtered''
           = filtered u (column df ''unique_junction_reads'')"
    and "column (psi_table u m df) ''total_filtered_reads''
           = totals (filtered m (column df ''multimap_junction_reads''))
                    (filtered u (column df ''unique_junction_reads''))"
    and "column (psi_table u m df) ''psi5_denominator''
           = denominators (keys_of df [''chrom'', ''intron_start''])
               (totals (filtered m (column df ''multimap_junction_reads''))
                       (filtered u (column df ''unique_junction_reads'')))"
    and "column (psi_table u m df) ''psi5''
           = ratios (totals (filtered m (column df ''multimap_junction_reads''))
                            (filtered u (column df ''unique_junction_reads'')))
               (denominators (keys_of df [''chrom'', ''intron_start''])
                 (totals (filtered m (column df ''multimap_junction_reads''))
                         (filtered u (column df ''unique_junction_reads''))))"
    and "column (psi_table u m df) ''psi3_denominator''
           = denominators (keys_of df [''chrom'', ''intron_stop''])
               (totals (filtered m (column df ''multimap_junction_reads''))
                       (filtered u (column df ''unique_junction_reads'')))"
    and "column (psi_table u m df) ''psi3''
           = ratios (totals (filtered m (column df ''multimap_junction_reads''))
                            (filtered u (column df ''unique_junction_reads'')))
               (denominators (keys_of df [''chrom'', ''intron_stop''])
                 (totals (filtered m (column df ''multimap_junction_reads''))
                         (filtered u (column df ''unique_junction_reads''))))"
proof -
  have fresh: "\<And>k. k \<in> set derived_names \<Longrightarrow> k \<notin> fst ` set (columns df)"
    using input_ok_fresh[OF ok] by simp
  show "column (psi_table u m df) ''multimap_junction_reads_filtered''
           = filtered m (column df ''multimap_junction_reads'')"
    using fresh[of "''multimap_junction_reads_filtered''"]
    by (simp add: psi_table_def Let_def column_appended derived_names_def)
  show "column (psi_table u m df) ''unique_junction_reads_filtered''
           = filtered u (column df ''unique_junction_reads'')"
    using fresh[of "''unique_junction_reads_filtered''"]
    by (simp add: psi_table_def Let_def column_appended derived_names_def)
  show "column (psi_table u m df) ''total_filtered_reads''
           = totals (filtered m (column df ''multimap_junction_reads''))
                    (filtered u (column df ''unique_junction_reads''))"
    using fresh[of "''total_filtered_reads''"]
    by (simp add: psi_table_def Let_def column_appended derived_names_def)
  show "column (psi_table u m df) ''psi5_denominator''
           = denominators (keys_of df [''chrom'', ''intron_start''])
               (totals (filtered m (column df ''multimap_junction_reads''))
                       (filtered u (column df ''unique_junction_reads'')))"
    using fresh[of "''psi5_denominator''"]
    by (simp add: psi_table_def Let_def column_appended derived_names_def)
  show "column (psi_table u m df) ''psi5''
           = ratios (totals (filtered m (column df ''multimap_junction_reads''))
                            (filtered u (column df ''unique_junction_reads'')))
               (denominators (keys_of df [''chrom'', ''intron_start''])
                 (totals (filtered m (column df ''multimap_junction_reads''))
                         (filtered u (column df ''unique_junction_reads''))))"
    using fresh[of "''psi5''"]
    by (simp add: psi_table_def Let_def column_appended derived_names_def)
  show "column (psi_table u m df) ''psi3_denominator''
           = denominators (keys_of df [''chrom'', ''intron_stop''])
               (totals (filtered m (column df ''multimap_junction_reads''))
                       (filtered u (column df ''unique_junction_reads'')))"
    using fresh[of "''psi3_denominator''"]
    by (simp add: psi_table_def Let_def column_appended derived_names_def)
  show "column (psi_table u m df) ''psi3''
           = ratios (totals (filtered m (column df ''multimap_junction_reads''))
                            (filtered u (column df ''unique_junction_reads'')))
               (denominators (keys_of df [''chrom'', ''intron_stop''])
                 (totals (filtered m (column df ''multimap_junction_reads''))
                         (filtered u (column df ''unique_junction_reads''))))"
    using fresh[of "''psi3''"]
    by (simp add: psi_table_def Let_def column_appended derived_names_def)
qed



lemma example_sj_ok: "input_ok example_sj"
  by (simp add: input_ok_def counts_ok_def keys_ok_def has_column_def rectangular_def
      example_sj_def derived_names_def range_index_distinct)

lemma psi_table_index [simp]: "index (psi_table u m df) = range_index (length (index df))"
  by (simp add: psi_table_def Let_def)


lemma example_columns:
  "column example_sj ''multimap_junction_reads'' = [IntV 0, IntV 0, IntV 0]"
  "column example_sj ''unique_junction_reads'' = [IntV 90, IntV 10, IntV 40]"
  "keys_of example_sj [''chrom'', ''intron_start'']
     = [[StrV ''chr1'', IntV 100], [StrV ''chr1'', IntV 100], [StrV ''chr1'', IntV 130]]"
  "keys_of example_sj [''chrom'', ''intron_stop'']
     = [[StrV ''chr1'', IntV 100], [StrV ''chr1'', IntV 200], [StrV ''chr1'', IntV 200]]"
  by (simp_all add: column_def example_sj_def keys_of_def key_table_def range_index_def upt_rec)





subsection \<open>The paths on which \<^verbatim>\<open>get_psis\<close> raises\<close>

























section \<open>The claims\<close>

text \<open>
  C9 (as amended). \<^verbatim>\<open>int_to_intron_motif\<close> maps the codes 0 to 6 to the seven labels, and
  every other integer code to \<^verbatim>\<open>None\<close>: an out-of-range code does not raise. The reader
  maps the motif column cell by cell and casts the annotation column to bool, and it
  succeeds on every parsed table that has the two columns.
\<close>

theorem int_to_intron_motif_labels:
  "int_to_intron_motif (IntV 0) = StrV ''non-canonical'' \<and>
   int_to_intron_motif (IntV 1) = StrV ''GT/AG'' \<and>
   int_to_intron_motif (IntV 2) = StrV ''CT/AC'' \<and>
   int_to_intron_motif (IntV 3) = StrV ''GC/AG'' \<and>
   int_to_intron_motif (IntV 4) = StrV ''CT/GC'' \<and>
   int_to_intron_motif (IntV 5) = StrV ''AT/AC'' \<and>
   int_to_intron_motif (IntV 6) = StrV ''GT/AT'' \<and>
   (\<forall>n. n < 0 \<or> 6 < n \<longrightarrow> int_to_intron_motif (IntV n) = NoneV) \<and>
   (\<forall>parsed motif annotated.
      map_of (columns parsed) ''intron_motif'' = Some motif \<and>
      map_of (columns parsed) ''annotated'' = Some annotated \<longrightarrow>
      (\<exists>sj. read_sj_out_tab parsed = Inr sj \<and>
            column sj ''intron_motif'' = map int_to_intron_motif motif \<and>
            column sj ''annotated'' = map astype_bool annotated))"
proof -
  have codes: "\<forall>n. n < 0 \<or> 6 < n \<longrightarrow> int_to_intron_motif (IntV n) = NoneV"
    by (auto simp: int_to_intron_motif_def)
  have reader: "\<forall>parsed motif annotated.
      map_of (columns parsed) ''intron_motif'' = Some motif \<and>
      map_of (columns parsed) ''annotated'' = Some annotated \<longrightarrow>
      (\<exists>sj. read_sj_out_tab parsed = Inr sj \<and>
            column sj ''intron_motif'' = map int_to_intron_motif motif \<and>
            column sj ''annotated'' = map astype_bool annotated)"
    by (simp add: read_sj_out_tab_def getattr_def series_map_def setitem_aligned
        update_conv' column_def)
  show ?thesis
    using codes reader by (simp add: int_to_intron_motif_def)
qed

theorem int_to_intron_motif_labels_witness:
  "((7::int) < 0 \<or> (6::int) < 7) \<and> int_to_intron_motif (IntV 7) = NoneV \<and>
   map_of (columns example_parsed) ''intron_motif'' = Some [IntV 7] \<and>
   map_of (columns example_parsed) ''annotated'' = Some [IntV 1] \<and>
   (\<exists>sj. read_sj_out_tab example_parsed = Inr sj \<and>
         column sj ''intron_motif'' = map int_to_intron_motif [IntV 7] \<and>
         column sj ''annotated'' = map astype_bool [IntV 1])"
proof -
  have m: "map_of (columns example_parsed) ''intron_motif'' = Some [IntV 7]"
    and a: "map_of (columns example_parsed) ''annotated'' = Some [IntV 1]"
    by (simp_all add: example_parsed_def)
  have "(7::int) < 0 \<or> (6::int) < 7" by simp
  moreover have "int_to_intron_motif (IntV 7) = NoneV"
    using int_to_intron_motif_labels by simp
  moreover have "\<exists>sj. read_sj_out_tab example_parsed = Inr sj \<and>
         column sj ''intron_motif'' = map int_to_intron_motif [IntV 7] \<and>
         column sj ''annotated'' = map astype_bool [IntV 1]"
    using int_to_intron_motif_labels m a by blast
  ultimately show ?thesis using m a by blast
qed

text \<open>
  C9, the claim as stated, fails: on a table with the motif code 7 the reader raises
  nothing and stores \<^verbatim>\<open>None\<close> as the label.
\<close>

theorem motif_code_7_counterexample:
  "int_to_intron_motif (IntV 7) = NoneV \<and>
   \<not> isl (read_sj_out_tab example_parsed) \<and>
   column (projr (read_sj_out_tab example_parsed)) ''intron_motif'' = [NoneV]"
  by (simp add: int_to_intron_motif_def read_sj_out_tab_def getattr_def series_map_def
      setitem_aligned update_conv' column_def example_parsed_def)









text \<open>
  C1. On the table of the docstring and the default thresholds 5 and 10, the code does
  not give the scores of the docstring: no multimap count reaches 10, so every filtered
  multimap count is missing, \<^verbatim>\<open>add\<close> without \<^verbatim>\<open>fill_value\<close> makes every total missing, and
  every score is missing.
\<close>

theorem docstring_example_scores:
  "\<not> isl (snd (get_psis example_sj 5 10)) \<and>
   column (projr (snd (get_psis example_sj 5 10))) ''psi5'' = [FloatV NaN, FloatV NaN, FloatV NaN] \<and>
   column (projr (snd (get_psis example_sj 5 10))) ''psi3'' = [FloatV NaN, FloatV NaN, FloatV NaN]"
proof -
  have res: "snd (get_psis example_sj 5 10) = Inr (psi_table 5 10 example_sj)"
    using get_psis_closed[OF example_sj_ok] by simp
  have p5: "column (psi_table 5 10 example_sj) ''psi5'' = [FloatV NaN, FloatV NaN, FloatV NaN]"
    using psi_table_columns(5)[OF example_sj_ok, of 5 10]
    by (simp add: example_columns filtered_def passes_def totals_def ratios_def
        denominators_def group_sum_def nansum_def)
  have p3: "column (psi_table 5 10 example_sj) ''psi3'' = [FloatV NaN, FloatV NaN, FloatV NaN]"
    using psi_table_columns(7)[OF example_sj_ok, of 5 10]
    by (simp add: example_columns filtered_def passes_def totals_def ratios_def
        denominators_def group_sum_def nansum_def)
  show ?thesis using res p5 p3 by simp
qed

text \<open>
  With the multimap threshold at 0 the same table gives the scores the docstring prints.
\<close>

lemma docstring_scores_at_multimap_threshold_0:
  "column (projr (snd (get_psis example_sj 5 0))) ''psi5''
     = [FloatV (Fin (9 / 10)), FloatV (Fin (1 / 10)), FloatV (Fin 1)] \<and>
   column (projr (snd (get_psis example_sj 5 0))) ''psi3''
     = [FloatV (Fin 1), FloatV (Fin (1 / 5)), FloatV (Fin (4 / 5))]"
proof -
  have res: "snd (get_psis example_sj 5 0) = Inr (psi_table 5 0 example_sj)"
    using get_psis_closed[OF example_sj_ok] by simp
  have ts: "totals (filtered 0 (column example_sj ''multimap_junction_reads''))
                   (filtered 5 (column example_sj ''unique_junction_reads''))
            = [FloatV (Fin 90), FloatV (Fin 10), FloatV (Fin 40)]"
    by (simp add: example_columns filtered_def passes_def totals_def to_float_def)
  have p5: "column (psi_table 5 0 example_sj) ''psi5''
      = [FloatV (Fin (9 / 10)), FloatV (Fin (1 / 10)), FloatV (Fin 1)]"
    using psi_table_columns(5)[OF example_sj_ok, of 5 0] unfolding ts
    by (simp add: example_columns ratios_def denominators_def group_sum_def nansum_def)
  have p3: "column (psi_table 5 0 example_sj) ''psi3''
      = [FloatV (Fin 1), FloatV (Fin (1 / 5)), FloatV (Fin (4 / 5))]"
    using psi_table_columns(7)[OF example_sj_ok, of 5 0] unfolding ts
    by (simp add: example_columns ratios_def denominators_def group_sum_def nansum_def)
  show ?thesis using res p5 p3 by simp
qed

text \<open>
  C2. On the first row of the docstring table the unique count 90 reaches its threshold 5
  and the multimap count 0 does not reach 10: the filtered unique count is present, and
  yet \<^verbatim>\<open>total_filtered_reads\<close> is missing, not 90 (likewise on the other two rows).
\<close>

theorem docstring_example_totals:
  "column (projr (snd (get_psis example_sj 5 10))) ''unique_junction_reads_filtered''
     = [IntV 90, IntV 10, IntV 40] \<and>
   column (projr (snd (get_psis example_sj 5 10))) ''multimap_junction_reads_filtered''
     = [FloatV NaN, FloatV NaN, FloatV NaN] \<and>
   column (projr (snd (get_psis example_sj 5 10))) ''total_filtered_reads''
     = [FloatV NaN, FloatV NaN, FloatV NaN]"
proof -
  have res: "snd (get_psis example_sj 5 10) = Inr (psi_table 5 10 example_sj)"
    using get_psis_closed[OF example_sj_ok] by simp
  have uf: "column (psi_table 5 10 example_sj) ''unique_junction_reads_filtered''
      = [IntV 90, IntV 10, IntV 40]"
    using psi_table_columns(2)[OF example_sj_ok, of 5 10]
    by (simp add: example_columns filtered_def passes_def)
  have mf: "column (psi_table 5 10 example_sj) ''multimap_junction_reads_filtered''
      = [FloatV NaN, FloatV NaN, FloatV NaN]"
    using psi_table_columns(1)[OF example_sj_ok, of 5 10]
    by (simp add: example_columns filtered_def passes_def)
  have ts: "column (psi_table 5 10 example_sj) ''total_filtered_reads''
      = [FloatV NaN, FloatV NaN, FloatV NaN]"
    using psi_table_columns(3)[OF example_sj_ok, of 5 10]
    by (simp add: example_columns filtered_def passes_def totals_def)
  show ?thesis using res uf mf ts by simp
qed










end
